theory Spec2Isabelle
  imports Main
begin

section \<open>Data model of \<open>src/lib/xrp.ts\<close>\<close>

text \<open>
  The XRP ledger client, the wallet factory and the address utilities are third-party
  libraries (xpring-js, xpring-common-js). Their operations are parameters of the model:
  a record of functions, about which nothing is assumed. JavaScript numbers (IEEE-754
  doubles) are kept as a type variable \<open>'n\<close> and wallets as a type variable \<open>'w\<close>.
  Calls to the logger are not part of the model.
\<close>

text \<open>The enum \<open>TransactionStatus\<close> of xpring-js, as \<open>checkPayment\<close> compares against it.\<close>

datatype TransactionStatus = Failed | Pending | Succeeded | Unknown

datatype XrplNetwork = Devnet | Testnet | Mainnet

text \<open>
  Everything that can be thrown: the three \<open>Error\<close> values built in \<open>xrp.ts\<close> and whatever a
  library call throws (or a library promise rejects with).
  \<^item> \<open>WalletGenerationFailed\<close>: \<^verbatim>\<open>Error('Failed to generate wallet from secret.')\<close>
  \<^item> \<open>RetryLimitReached n\<close>: \<^verbatim>\<open>Error(`Retry limit of ${numRetries} reached. Transaction still pending.`)\<close>
  \<^item> \<open>TransactionFailed\<close>: \<^verbatim>\<open>Error('Transaction failed.')\<close>
\<close>

datatype js_error =
    WalletGenerationFailed
  | RetryLimitReached int
  | TransactionFailed
  | LibraryError string

text \<open>
  How a call ends: it returns a value (an awaited promise resolves), or it throws (an awaited
  promise rejects). The two are kept apart, since the source never returns an error as a value.
\<close>

datatype 'a completion = Returns 'a | Throws js_error

fun returns_normally :: "'a completion \<Rightarrow> bool" where
  "returns_normally (Returns v) = True"
| "returns_normally (Throws e) = False"

text \<open>The fields of \<open>TxInput\<close> that \<open>submitPayment\<close> destructures.\<close>

record 'n TxInput =
  address :: string
  destinationTag :: "nat option"
  usdAmount :: 'n
  name :: string

text \<open>
  What the network has seen so far: every invocation of \<open>xrpClient.send\<close> with its arguments
  (drops, destination X-address or \<open>undefined\<close>, wallet) and every invocation of
  \<open>xrpClient.getPaymentStatus\<close> with its transaction hash, both in order.
\<close>

record 'w ledger =
  sent :: "(string \<times> string option \<times> 'w) list"
  queried :: "string list"

text \<open>
  The \<open>XrpClient\<close>: what it answers to a call may depend on all that happened before.
\<close>

record 'w XrpClient =
  send_reply :: "'w ledger \<Rightarrow> string \<Rightarrow> string option \<Rightarrow> 'w \<Rightarrow> string completion"
  status_reply :: "'w ledger \<Rightarrow> string \<Rightarrow> TransactionStatus completion"

definition send ::
  "'w XrpClient \<Rightarrow> string \<Rightarrow> string option \<Rightarrow> 'w \<Rightarrow> 'w ledger \<Rightarrow> string completion \<times> 'w ledger"
where
  "send xrpClient drops destination wallet l =
     (send_reply xrpClient l drops destination wallet,
      l\<lparr>sent := sent l @ [(drops, destination, wallet)]\<rparr>)"

definition getPaymentStatus ::
  "'w XrpClient \<Rightarrow> string \<Rightarrow> 'w ledger \<Rightarrow> TransactionStatus completion \<times> 'w ledger"
where
  "getPaymentStatus xrpClient txHash l =
     (status_reply xrpClient l txHash, l\<lparr>queried := queried l @ [txHash]\<rparr>)"

text \<open>
  \<open>XrpUtils\<close>, \<open>WalletFactory\<close> and the division of JavaScript numbers. A value that may be
  \<open>undefined\<close> is an \<open>option\<close>.
\<close>

record ('n, 'w) XrpUtils =
  encodeXAddress :: "string \<Rightarrow> nat option \<Rightarrow> string option completion"
  decodeXAddress :: "string option \<Rightarrow> string option completion"
  xrpToDrops :: "'n \<Rightarrow> string completion"
  number_div :: "'n \<Rightarrow> 'n \<Rightarrow> 'n"
  walletFromSeed :: "XrplNetwork \<Rightarrow> string \<Rightarrow> 'w option completion"
  getAddress :: "'w \<Rightarrow> string"
  isValidXAddress :: "string option \<Rightarrow> bool"
  isValidClassicAddress :: "string option \<Rightarrow> bool"

section \<open>The functions of \<open>src/lib/xrp.ts\<close>\<close>

text \<open>
  \<open>generateWallet\<close>: \<open>wallet?.getAddress()\<close> is \<open>undefined\<close> for a missing wallet, and
  \<open>decodeXAddress(xAddress)?.address\<close> is \<open>undefined\<close> for a missing decoding; the field
  \<open>decodeXAddress\<close> of the model gives that classic address directly.
\<close>

definition generateWallet ::
  "('n, 'w) XrpUtils \<Rightarrow> string \<Rightarrow> XrplNetwork \<Rightarrow> ('w option \<times> string option) completion"
where
  "generateWallet U secret network =
     (case walletFromSeed U network secret of
        Throws e \<Rightarrow> Throws e
      | Returns wallet \<Rightarrow>
          (let xAddress = map_option (getAddress U) wallet in
           case decodeXAddress U xAddress of
             Throws e \<Rightarrow> Throws e
           | Returns classicAddress \<Rightarrow>
               if wallet = None \<or> \<not> isValidXAddress U xAddress
                  \<or> \<not> isValidClassicAddress U classicAddress
               then Throws WalletGenerationFailed
               else Returns (wallet, classicAddress)))"

text \<open>\<open>submitPayment\<close>: no \<open>try\<close>, so whatever a call throws leaves the function at once.\<close>

definition submitPayment ::
  "('n, 'w) XrpUtils \<Rightarrow> 'w \<Rightarrow> 'w XrpClient \<Rightarrow> 'n TxInput \<Rightarrow> 'n \<Rightarrow> 'w ledger
     \<Rightarrow> string completion \<times> 'w ledger"
where
  "submitPayment U senderWallet xrpClient receiverAccount usdToXrpRate l =
     (case encodeXAddress U (address receiverAccount) (destinationTag receiverAccount) of
        Throws e \<Rightarrow> (Throws e, l)
      | Returns destinationXAddress \<Rightarrow>
          (let xrpDestinationAmount = number_div U (usdAmount receiverAccount) usdToXrpRate in
           case xrpToDrops U xrpDestinationAmount of
             Throws e \<Rightarrow> (Throws e, l)
           | Returns dropDestinationAmount \<Rightarrow>
               send xrpClient dropDestinationAmount destinationXAddress senderWallet l))"

text \<open>
  \<open>checkPayment\<close>. The constant \<open>retryLimit\<close> imported from \<open>./config\<close> is the first
  parameter; the others are in the source's order. The recursive call is the source's
  \<^verbatim>\<open>checkPayment(xrpClient, txHash, newIndex, retryLimit)\<close>: \<open>newIndex\<close> in the place of
  \<open>numRetries\<close>, \<open>retryLimit\<close> in the place of \<open>index\<close>. The function need not return, so its
  value is an \<open>option\<close> and \<open>None\<close> stands for a recursion that never ends.
\<close>

partial_function (option) checkPayment ::
  "int \<Rightarrow> 'w XrpClient \<Rightarrow> string \<Rightarrow> int \<Rightarrow> int \<Rightarrow> 'w ledger
     \<Rightarrow> (unit completion \<times> 'w ledger) option"
where
  "checkPayment retryLimit xrpClient txHash numRetries index l =
     (case getPaymentStatus xrpClient txHash l of
        (Throws e, l') \<Rightarrow> Some (Throws e, l')
      | (Returns txStatus, l') \<Rightarrow>
          if txStatus = Succeeded then Some (Returns (), l')
          else if txStatus = Pending then
            (if index \<ge> numRetries then Some (Throws (RetryLimitReached numRetries), l')
             else (let newIndex = index + 1
                   in checkPayment retryLimit xrpClient txHash newIndex retryLimit l'))
          else if txStatus = Failed \<or> txStatus = Unknown then Some (Throws TransactionFailed, l')
          else Some (Returns (), l'))"

declare checkPayment.simps [code]

text \<open>
  The replies to \<open>n\<close> consecutive status queries for \<open>txHash\<close>, the first one made at
  ledger \<open>l\<close>: the polled status sequence of a transaction.
\<close>

definition polled_statuses ::
  "'w XrpClient \<Rightarrow> 'w ledger \<Rightarrow> string \<Rightarrow> nat \<Rightarrow> TransactionStatus completion list"
where
  "polled_statuses xrpClient l txHash n =
     map (\<lambda>j. status_reply xrpClient (l\<lparr>queried := queried l @ replicate j txHash\<rparr>) txHash)
       [0..<n]"

section \<open>The batch orchestrator\<close>

text \<open>
  Modelled from the spec: the data model's \<open>TransactionOutcome\<close> (section 3), a tagged variant
  \<open>Confirmed{txId} | Failed{reason} | TimedOut{txId, retriesExhausted}\<close>. The source has no
  such type: \<open>checkPayment\<close> returns or throws. \<open>Failed\<close> is written \<open>OutcomeFailed\<close> here,
  the name being taken by the transaction status.
\<close>

datatype TransactionOutcome =
    Confirmed string
  | OutcomeFailed js_error
  | TimedOut string bool

text \<open>
  Modelled from the spec: how the Confirmation Watcher's result reads as an outcome
  (sections 4.2 and 7): a normal return is \<open>Confirmed\<close>, the retry-limit error is \<open>TimedOut\<close>
  with \<open>retriesExhausted = true\<close>, any other error is \<open>Failed\<close>.
\<close>

fun outcome_of :: "string \<Rightarrow> unit completion \<Rightarrow> TransactionOutcome" where
  "outcome_of txId (Returns u) = Confirmed txId"
| "outcome_of txId (Throws (RetryLimitReached n)) = TimedOut txId True"
| "outcome_of txId (Throws e) = OutcomeFailed e"

text \<open>
  Modelled from the spec: the Batch Orchestrator \<open>reliableBatchPayment\<close> (section 4.3), which
  \<open>payout\<close> imports from \<open>../lib/xrp\<close> and calls, and which is not among the source files.
  For each recipient in input order it calls the Submitter; a submission error is recorded as
  \<open>Failed\<close> and the Watcher is not invoked; otherwise it calls the Watcher and records the
  outcome. Each pair is appended to the result sink as soon as it is known. Submitter and
  Watcher are the source's \<open>submitPayment\<close> and \<open>checkPayment\<close>; the arguments follow the call
  in \<open>payout\<close> (inputs, output stream, wallet, client, rate, number of retries), the output
  schema left out.
\<close>

fun reliableBatchPayment ::
  "int \<Rightarrow> ('n, 'w) XrpUtils \<Rightarrow> 'n TxInput list \<Rightarrow> ('n TxInput \<times> TransactionOutcome) list
     \<Rightarrow> 'w \<Rightarrow> 'w XrpClient \<Rightarrow> 'n \<Rightarrow> int \<Rightarrow> 'w ledger
     \<Rightarrow> (('n TxInput \<times> TransactionOutcome) list \<times> 'w ledger) option"
where
  "reliableBatchPayment retryLimit U [] sink senderWallet xrpClient usdToXrpRate numRetries l =
     Some (sink, l)"
| "reliableBatchPayment retryLimit U (txInput # txInputs) sink senderWallet xrpClient
       usdToXrpRate numRetries l =
     (case submitPayment U senderWallet xrpClient txInput usdToXrpRate l of
        (Throws e, l1) \<Rightarrow>
          reliableBatchPayment retryLimit U txInputs (sink @ [(txInput, OutcomeFailed e)])
            senderWallet xrpClient usdToXrpRate numRetries l1
      | (Returns txHash, l1) \<Rightarrow>
          (case checkPayment retryLimit xrpClient txHash numRetries 0 l1 of
             None \<Rightarrow> None
           | Some (r, l2) \<Rightarrow>
               reliableBatchPayment retryLimit U txInputs (sink @ [(txInput, outcome_of txHash r)])
                 senderWallet xrpClient usdToXrpRate numRetries l2))"

section \<open>Concrete collaborators for evaluation\<close>

text \<open>A ledger on which nothing has happened yet.\<close>

definition fresh_ledger :: "unit ledger" where
  "fresh_ledger = \<lparr>sent = [], queried = []\<rparr>"

text \<open>
  A client that answers the \<open>i\<close>-th \<open>send\<close> with \<open>sends ! i\<close> and the \<open>i\<close>-th status query with
  \<open>statuses ! i\<close>, and with the given last answers once a script is used up.
\<close>

definition scripted_client ::
  "string completion list \<Rightarrow> string completion \<Rightarrow> TransactionStatus completion list
     \<Rightarrow> TransactionStatus completion \<Rightarrow> unit XrpClient"
where
  "scripted_client sends last_send statuses last_status =
     \<lparr>send_reply = (\<lambda>l drops destination wallet.
        if length (sent l) < length sends then sends ! length (sent l) else last_send),
      status_reply = (\<lambda>l txHash.
        if length (queried l) < length statuses then statuses ! length (queried l)
        else last_status)\<rparr>"

text \<open>
  Utilities over integer amounts: an X-address is the classic address behind an \<open>X\<close>, the
  conversion to drops answers as given, a wallet exists for every secret but the empty one.
\<close>

definition test_utils :: "string completion \<Rightarrow> (int, unit) XrpUtils" where
  "test_utils drops =
     \<lparr>encodeXAddress = (\<lambda>classicAddress tag. Returns (Some (CHR ''X'' # classicAddress))),
      decodeXAddress = (\<lambda>xAddress. Returns (map_option tl xAddress)),
      xrpToDrops = (\<lambda>xrp. drops),
      number_div = (\<lambda>a b. a div b),
      walletFromSeed = (\<lambda>network secret. Returns (if secret = [] then None else Some ())),
      getAddress = (\<lambda>wallet. ''XrSender''),
      isValidXAddress = (\<lambda>a. a \<noteq> None),
      isValidClassicAddress = (\<lambda>a. a \<noteq> None)\<rparr>"

definition recipient :: "string \<Rightarrow> int TxInput" where
  "recipient n = \<lparr>address = CHR ''r'' # n, destinationTag = None, usdAmount = 10, name = n\<rparr>"

section \<open>One poll of \<open>checkPayment\<close>\<close>

lemma checkPayment_query_throws:
  "status_reply c l h = Throws e \<Longrightarrow>
   checkPayment R c h N i l = Some (Throws e, l\<lparr>queried := queried l @ [h]\<rparr>)"
  by (subst checkPayment.simps) (simp add: getPaymentStatus_def)

lemma checkPayment_Succeeded:
  "status_reply c l h = Returns Succeeded \<Longrightarrow>
   checkPayment R c h N i l = Some (Returns (), l\<lparr>queried := queried l @ [h]\<rparr>)"
  by (subst checkPayment.simps) (simp add: getPaymentStatus_def)

lemma checkPayment_Failed:
  "status_reply c l h = Returns Failed \<Longrightarrow>
   checkPayment R c h N i l = Some (Throws TransactionFailed, l\<lparr>queried := queried l @ [h]\<rparr>)"
  by (subst checkPayment.simps) (simp add: getPaymentStatus_def)

lemma checkPayment_Unknown:
  "status_reply c l h = Returns Unknown \<Longrightarrow>
   checkPayment R c h N i l = Some (Throws TransactionFailed, l\<lparr>queried := queried l @ [h]\<rparr>)"
  by (subst checkPayment.simps) (simp add: getPaymentStatus_def)

lemma checkPayment_Pending_limit:
  "status_reply c l h = Returns Pending \<Longrightarrow> N \<le> i \<Longrightarrow>
   checkPayment R c h N i l
     = Some (Throws (RetryLimitReached N), l\<lparr>queried := queried l @ [h]\<rparr>)"
  by (subst checkPayment.simps) (simp add: getPaymentStatus_def)

text \<open>
  A pending transaction below the limit: the next invocation has \<open>index + 1\<close> as its
  \<open>numRetries\<close> and \<open>retryLimit\<close> as its \<open>index\<close>.
\<close>

lemma checkPayment_Pending_retry:
  "status_reply c l h = Returns Pending \<Longrightarrow> i < N \<Longrightarrow>
   checkPayment R c h N i l = checkPayment R c h (i + 1) R (l\<lparr>queried := queried l @ [h]\<rparr>)"
  by (subst checkPayment.simps) (simp add: getPaymentStatus_def)

lemma checkPayment_one_poll:
  assumes "status_reply c l h \<noteq> Returns Pending \<or> N \<le> i"
  shows "\<exists>r. checkPayment R c h N i l = Some (r, l\<lparr>queried := queried l @ [h]\<rparr>)"
proof (cases "status_reply c l h")
  case (Throws e)
  then show ?thesis by (simp add: checkPayment_query_throws)
next
  case (Returns s)
  show ?thesis
  proof (cases s)
    case Failed
    with Returns show ?thesis by (simp add: checkPayment_Failed)
  next
    case Pending
    with Returns assms show ?thesis by (simp add: checkPayment_Pending_limit)
  next
    case Succeeded
    with Returns show ?thesis by (simp add: checkPayment_Succeeded)
  next
    case Unknown
    with Returns show ?thesis by (simp add: checkPayment_Unknown)
  qed
qed

section \<open>At most two polls\<close>

lemma checkPayment_at_most_two_polls:
  assumes "N = R \<or> 1 \<le> R"
  shows "\<exists>r l'. checkPayment R c h N 0 l = Some (r, l')
           \<and> (l' = l\<lparr>queried := queried l @ [h]\<rparr> \<or> l' = l\<lparr>queried := queried l @ [h, h]\<rparr>)"
proof (cases "status_reply c l h \<noteq> Returns Pending \<or> N \<le> 0")
  case True
  from checkPayment_one_poll [OF True, of R] show ?thesis by blast
next
  case False
  then have p: "status_reply c l h = Returns Pending" and n: "0 < N" by auto
  with assms have r: "1 \<le> R" by auto
  let ?l1 = "l\<lparr>queried := queried l @ [h]\<rparr>"
  have step: "checkPayment R c h N 0 l = checkPayment R c h 1 R ?l1"
    using checkPayment_Pending_retry [OF p n, of R] by simp
  have "status_reply c ?l1 h \<noteq> Returns Pending \<or> 1 \<le> R" using r by simp
  from checkPayment_one_poll [OF this, of R]
  obtain r' where "checkPayment R c h 1 R ?l1 = Some (r', ?l1\<lparr>queried := queried ?l1 @ [h]\<rparr>)"
    by blast
  with step show ?thesis by simp
qed

text \<open>
  What two pending answers in a row lead to, whatever the number of retries asked for: the
  second invocation compares \<open>retryLimit\<close> with 1 and gives up.
\<close>

lemma checkPayment_two_pending:
  assumes "0 < N" and "1 \<le> R"
    and "polled_statuses c l h 2 = [Returns Pending, Returns Pending]"
  shows "checkPayment R c h N 0 l
           = Some (Throws (RetryLimitReached 1), l\<lparr>queried := queried l @ [h, h]\<rparr>)"
proof -
  have two: "[0..<2] = [0, Suc 0]" by (simp add: upt_rec)
  from assms(3) have p0: "status_reply c l h = Returns Pending"
    and p1: "status_reply c (l\<lparr>queried := queried l @ [h]\<rparr>) h = Returns Pending"
    by (simp_all add: polled_statuses_def two)
  show ?thesis
    using checkPayment_Pending_retry [OF p0 assms(1), of R]
      checkPayment_Pending_limit [OF p1 assms(2), of R]
    by simp
qed

text \<open>
  With a retry limit below 1 in the configuration and a positive number of retries asked
  for, a transaction that stays pending keeps \<open>checkPayment\<close> polling for ever.
\<close>

lemma checkPayment_Some_not_stuck:
  assumes ret: "checkPayment R c h N i l = Some y"
  shows "\<not> (R \<le> i \<and> i < N \<and> (\<forall>l'. status_reply c l' h = Returns Pending))"
proof (rule checkPayment.raw_induct
    [where P = "\<lambda>R c h N i l y.
        \<not> (R \<le> i \<and> i < N \<and> (\<forall>l'. status_reply c l' h = Returns Pending))",
      OF _ ret], goal_cases)
  case (1 checkPayment' R c h N i l y)
  show ?case
  proof
    assume a: "R \<le> i \<and> i < N \<and> (\<forall>l'. status_reply c l' h = Returns Pending)"
    then have "checkPayment' R c h (i + 1) R (l\<lparr>queried := queried l @ [h]\<rparr>) = Some y"
      using 1(2) by (simp add: getPaymentStatus_def)
    from 1(1) [OF this] a show False by simp
  qed
qed

lemma checkPayment_never_returns:
  assumes "R \<le> 0" and "0 < N" and "\<forall>l'. status_reply c l' h = Returns Pending"
  shows "checkPayment R c h N 0 l = None"
  using checkPayment_Some_not_stuck [of R c h N 0 l] assms
  by (cases "checkPayment R c h N 0 l") auto

section \<open>Claims about \<open>checkPayment\<close>\<close>

text \<open>
  C1, evaluated. The claim: a transaction whose polled statuses are Pending \<open>k\<close> times and then
  Succeeded, with \<open>k\<close> below the retry limit, is confirmed after \<open>k + 1\<close> queries. Here the
  retry limit is 3 and the statuses are Pending, Pending, Succeeded (\<open>k = 2\<close>):
  \<open>checkPayment\<close> throws the retry-limit error after the second query and never makes the
  third.
\<close>

theorem checkPayment_pending_twice_then_succeeded:
  "polled_statuses (scripted_client [] (Returns ''H'') [Returns Pending, Returns Pending]
       (Returns Succeeded)) fresh_ledger ''H'' 3
     = [Returns Pending, Returns Pending, Returns Succeeded]
   \<and> checkPayment 3 (scripted_client [] (Returns ''H'') [Returns Pending, Returns Pending]
       (Returns Succeeded)) ''H'' 3 0 fresh_ledger
     = Some (Throws (RetryLimitReached 1), \<lparr>sent = [], queried = [''H'', ''H'']\<rparr>)"
  by (simp add: checkPayment.simps getPaymentStatus_def polled_statuses_def scripted_client_def
      fresh_ledger_def upt_rec)

text \<open>
  C2, evaluated. The claim: a transaction that is pending at every query times out after
  exactly the configured number of retries. Here the retry limit is 3 and every answer is
  Pending: \<open>checkPayment\<close> throws after two queries, that is after one retry, and the error
  names a limit of 1.
\<close>

theorem checkPayment_always_pending_limit_3:
  "polled_statuses (scripted_client [] (Returns ''H'') [] (Returns Pending)) fresh_ledger ''H'' 4
     = [Returns Pending, Returns Pending, Returns Pending, Returns Pending]
   \<and> checkPayment 3 (scripted_client [] (Returns ''H'') [] (Returns Pending)) ''H'' 3 0
       fresh_ledger
     = Some (Throws (RetryLimitReached 1), \<lparr>sent = [], queried = [''H'', ''H'']\<rparr>)"
  by (simp add: checkPayment.simps getPaymentStatus_def polled_statuses_def scripted_client_def
      fresh_ledger_def upt_rec)

text \<open>
  C5. A status query answered Failed or Unknown makes \<open>checkPayment\<close> throw
  \<open>Transaction failed.\<close> right after that one query, at any \<open>numRetries\<close> and \<open>index\<close>: the
  ledger has one more query recorded and nothing else changed.
\<close>

theorem checkPayment_failed_or_unknown:
  assumes "status_reply c l h = Returns Failed \<or> status_reply c l h = Returns Unknown"
  shows "checkPayment R c h N i l
           = Some (Throws TransactionFailed, l\<lparr>queried := queried l @ [h]\<rparr>)"
  using assms checkPayment_Failed [of c l h R N i] checkPayment_Unknown [of c l h R N i]
  by blast

theorem checkPayment_failed_or_unknown_witness:
  "(status_reply (scripted_client [] (Returns ''H'') [Returns Failed] (Returns Pending))
        fresh_ledger ''H'' = Returns Failed
      \<or> status_reply (scripted_client [] (Returns ''H'') [Returns Failed] (Returns Pending))
        fresh_ledger ''H'' = Returns Unknown)
   \<and> checkPayment 3 (scripted_client [] (Returns ''H'') [Returns Failed] (Returns Pending))
        ''H'' 3 0 fresh_ledger
      = Some (Throws TransactionFailed, \<lparr>sent = [], queried = [''H'']\<rparr>)"
proof -
  let ?c = "scripted_client [] (Returns ''H'') [Returns Failed] (Returns Pending)"
  have f: "status_reply ?c fresh_ledger ''H'' = Returns Failed
      \<or> status_reply ?c fresh_ledger ''H'' = Returns Unknown"
    by (simp add: scripted_client_def fresh_ledger_def)
  from checkPayment_failed_or_unknown [OF f, of 3 3 0] f show ?thesis
    by (simp add: fresh_ledger_def)
qed

text \<open>
  C6. With \<open>numRetries = 0\<close> and the default \<open>index = 0\<close>, \<open>checkPayment\<close> makes one status
  query and ends, whatever the answer; a Pending answer gives the retry-limit error.
\<close>

theorem checkPayment_limit_zero:
  "(\<exists>r. checkPayment R c h 0 0 l = Some (r, l\<lparr>queried := queried l @ [h]\<rparr>))
   \<and> (status_reply c l h = Returns Pending \<longrightarrow>
        checkPayment R c h 0 0 l
          = Some (Throws (RetryLimitReached 0), l\<lparr>queried := queried l @ [h]\<rparr>))"
proof
  have "status_reply c l h \<noteq> Returns Pending \<or> (0::int) \<le> 0" by simp
  from checkPayment_one_poll [OF this, of R]
  show "\<exists>r. checkPayment R c h 0 0 l = Some (r, l\<lparr>queried := queried l @ [h]\<rparr>)" .
next
  show "status_reply c l h = Returns Pending \<longrightarrow>
        checkPayment R c h 0 0 l
          = Some (Throws (RetryLimitReached 0), l\<lparr>queried := queried l @ [h]\<rparr>)"
    by (simp add: checkPayment_Pending_limit)
qed

theorem checkPayment_limit_zero_witness:
  "status_reply (scripted_client [] (Returns ''H'') [] (Returns Pending)) fresh_ledger ''H''
     = Returns Pending
   \<and> checkPayment 0 (scripted_client [] (Returns ''H'') [] (Returns Pending)) ''H'' 0 0
        fresh_ledger
     = Some (Throws (RetryLimitReached 0), \<lparr>sent = [], queried = [''H'']\<rparr>)"
proof -
  let ?c = "scripted_client [] (Returns ''H'') [] (Returns Pending)"
  have p: "status_reply ?c fresh_ledger ''H'' = Returns Pending"
    by (simp add: scripted_client_def)
  from checkPayment_limit_zero [of 0 ?c "''H''" fresh_ledger] p show ?thesis
    by (simp add: fresh_ledger_def)
qed

text \<open>
  C9, as stated, fails. With a configured retry limit of 0 and \<open>checkPayment\<close> called with
  \<open>numRetries = 3\<close> and the default \<open>index = 0\<close>: on the statuses Pending, Pending, Succeeded
  it makes three status queries, and on a transaction that stays pending it never ends.
\<close>

theorem checkPayment_two_polls_counterexample:
  "checkPayment 0 (scripted_client [] (Returns ''H'') [Returns Pending, Returns Pending]
       (Returns Succeeded)) ''H'' 3 0 fresh_ledger
     = Some (Returns (), \<lparr>sent = [], queried = [''H'', ''H'', ''H'']\<rparr>)
   \<and> checkPayment 0 (scripted_client [] (Returns ''H'') [] (Returns Pending)) ''H'' 3 0
       fresh_ledger = None"
proof
  show "checkPayment 0 (scripted_client [] (Returns ''H'') [Returns Pending, Returns Pending]
       (Returns Succeeded)) ''H'' 3 0 fresh_ledger
     = Some (Returns (), \<lparr>sent = [], queried = [''H'', ''H'', ''H'']\<rparr>)"
    by (simp add: checkPayment.simps getPaymentStatus_def scripted_client_def fresh_ledger_def)
next
  have "\<forall>l'. status_reply (scripted_client [] (Returns ''H'') [] (Returns Pending)) l' ''H''
      = Returns Pending"
    by (simp add: scripted_client_def)
  then show "checkPayment 0 (scripted_client [] (Returns ''H'') [] (Returns Pending)) ''H'' 3 0
       fresh_ledger = None"
    by (intro checkPayment_never_returns) simp_all
qed

text \<open>
  C9, amended. Called with the default \<open>index = 0\<close> and with the configured retry limit as
  its \<open>numRetries\<close> (the default, and what \<open>payout\<close> passes), \<open>checkPayment\<close> returns or
  throws after one or two status queries, for every retry limit and every client. The same
  holds for any \<open>numRetries\<close> when the configured retry limit is at least 1.
\<close>

theorem checkPayment_terminates_within_two_polls:
  "(\<exists>r l'. checkPayment R c h R 0 l = Some (r, l')
       \<and> (l' = l\<lparr>queried := queried l @ [h]\<rparr> \<or> l' = l\<lparr>queried := queried l @ [h, h]\<rparr>))
   \<and> (1 \<le> R \<longrightarrow>
       (\<exists>r l'. checkPayment R c h N 0 l = Some (r, l')
          \<and> (l' = l\<lparr>queried := queried l @ [h]\<rparr> \<or> l' = l\<lparr>queried := queried l @ [h, h]\<rparr>)))"
  using checkPayment_at_most_two_polls [of R R c h l]
    checkPayment_at_most_two_polls [of N R c h l]
  by blast

theorem checkPayment_terminates_within_two_polls_witness:
  "(1::int) \<le> 3
   \<and> (\<exists>r l'. checkPayment 3 (scripted_client [] (Returns ''H'') [] (Returns Pending)) ''H'' 7 0
          fresh_ledger = Some (r, l')
        \<and> (l' = fresh_ledger\<lparr>queried := queried fresh_ledger @ [''H'']\<rparr>
           \<or> l' = fresh_ledger\<lparr>queried := queried fresh_ledger @ [''H'', ''H'']\<rparr>))"
  using checkPayment_terminates_within_two_polls
    [of 3 "scripted_client [] (Returns ''H'') [] (Returns Pending)" "''H''" fresh_ledger 7]
  by simp

section \<open>\<open>submitPayment\<close>\<close>

text \<open>
  When the address encoding and the conversion to drops both return, \<open>send\<close> is invoked with
  their results and the sender's wallet, and \<open>submitPayment\<close> ends the way \<open>send\<close> does.
\<close>

lemma submitPayment_reaches_send:
  assumes "encodeXAddress U (address r) (destinationTag r) = Returns x"
    and "xrpToDrops U (number_div U (usdAmount r) rate) = Returns d"
  shows "submitPayment U w c r rate l
           = (send_reply c l d x w, l\<lparr>sent := sent l @ [(d, x, w)]\<rparr>)"
  using assms by (simp add: submitPayment_def send_def)

text \<open>When one of the two throws, \<open>send\<close> is not invoked and the ledger is as before.\<close>

lemma submitPayment_conversion_throws:
  assumes "encodeXAddress U (address r) (destinationTag r) = Throws e
      \<or> (\<exists>x. encodeXAddress U (address r) (destinationTag r) = Returns x
            \<and> xrpToDrops U (number_div U (usdAmount r) rate) = Throws e)"
  shows "submitPayment U w c r rate l = (Throws e, l)"
  using assms by (auto simp add: submitPayment_def)

lemma submitPayment_cases:
  "(\<exists>e. submitPayment U w c r rate l = (Throws e, l))
   \<or> (\<exists>d x. submitPayment U w c r rate l
          = (send_reply c l d x w, l\<lparr>sent := sent l @ [(d, x, w)]\<rparr>))"
proof (cases "encodeXAddress U (address r) (destinationTag r)")
  case (Throws e)
  then show ?thesis by (simp add: submitPayment_conversion_throws)
next
  case enc: (Returns x)
  show ?thesis
  proof (cases "xrpToDrops U (number_div U (usdAmount r) rate)")
    case (Throws e)
    with enc show ?thesis by (simp add: submitPayment_conversion_throws)
  next
    case (Returns d)
    from submitPayment_reaches_send [OF enc Returns] show ?thesis by blast
  qed
qed

text \<open>
  C4, as stated, fails: on a client whose \<open>send\<close> rejects, \<open>submitPayment\<close> does not return;
  the error of \<open>send\<close> is thrown to the caller.
\<close>

theorem submitPayment_send_error_counterexample:
  "send_reply (scripted_client [] (Throws (LibraryError ''tecUNFUNDED_PAYMENT'')) []
       (Returns Pending)) fresh_ledger ''20000000'' (Some ''XrAlice'') ()
     = Throws (LibraryError ''tecUNFUNDED_PAYMENT'')
   \<and> \<not> returns_normally (fst (submitPayment (test_utils (Returns ''20000000'')) ()
       (scripted_client [] (Throws (LibraryError ''tecUNFUNDED_PAYMENT'')) [] (Returns Pending))
       (recipient ''Alice'') 1 fresh_ledger))
   \<and> fst (submitPayment (test_utils (Returns ''20000000'')) ()
       (scripted_client [] (Throws (LibraryError ''tecUNFUNDED_PAYMENT'')) [] (Returns Pending))
       (recipient ''Alice'') 1 fresh_ledger)
     = Throws (LibraryError ''tecUNFUNDED_PAYMENT'')"
  by (simp add: submitPayment_def send_def scripted_client_def test_utils_def recipient_def
      fresh_ledger_def)

text \<open>
  C4, amended. An error that the client's \<open>send\<close> throws is not caught: the same error leaves
  \<open>submitPayment\<close> as a thrown error, for the caller to catch. When \<open>send\<close> returns a
  transaction hash, \<open>submitPayment\<close> returns that hash.
\<close>

theorem submitPayment_propagates_send_result:
  assumes "encodeXAddress U (address r) (destinationTag r) = Returns x"
    and "xrpToDrops U (number_div U (usdAmount r) rate) = Returns d"
  shows "(\<forall>e. send_reply c l d x w = Throws e \<longrightarrow>
            fst (submitPayment U w c r rate l) = Throws e)
       \<and> (\<forall>txHash. send_reply c l d x w = Returns txHash \<longrightarrow>
            fst (submitPayment U w c r rate l) = Returns txHash)"
  using submitPayment_reaches_send [OF assms, of w c l] by simp

theorem submitPayment_propagates_send_result_witness:
  "encodeXAddress (test_utils (Returns ''20000000'')) (address (recipient ''Alice''))
       (destinationTag (recipient ''Alice'')) = Returns (Some ''XrAlice'')
   \<and> xrpToDrops (test_utils (Returns ''20000000''))
       (number_div (test_utils (Returns ''20000000'')) (usdAmount (recipient ''Alice'')) 1)
     = Returns ''20000000''
   \<and> send_reply (scripted_client [Returns ''H1''] (Throws (LibraryError ''down'')) []
       (Returns Pending)) fresh_ledger ''20000000'' (Some ''XrAlice'') () = Returns ''H1''
   \<and> fst (submitPayment (test_utils (Returns ''20000000'')) ()
       (scripted_client [Returns ''H1''] (Throws (LibraryError ''down'')) [] (Returns Pending))
       (recipient ''Alice'') 1 fresh_ledger) = Returns ''H1''
   \<and> send_reply (scripted_client [] (Throws (LibraryError ''down'')) []
       (Returns Pending)) fresh_ledger ''20000000'' (Some ''XrAlice'') ()
     = Throws (LibraryError ''down'')
   \<and> fst (submitPayment (test_utils (Returns ''20000000'')) ()
       (scripted_client [] (Throws (LibraryError ''down'')) [] (Returns Pending))
       (recipient ''Alice'') 1 fresh_ledger) = Throws (LibraryError ''down'')"
proof -
  let ?U = "test_utils (Returns ''20000000'')"
  let ?r = "recipient ''Alice''"
  let ?ok = "scripted_client [Returns ''H1''] (Throws (LibraryError ''down'')) []
       (Returns Pending)"
  let ?bad = "scripted_client [] (Throws (LibraryError ''down'')) [] (Returns Pending)"
  have enc: "encodeXAddress ?U (address ?r) (destinationTag ?r) = Returns (Some ''XrAlice'')"
    by (simp add: test_utils_def recipient_def)
  have drops: "xrpToDrops ?U (number_div ?U (usdAmount ?r) 1) = Returns ''20000000''"
    by (simp add: test_utils_def)
  have ok: "send_reply ?ok fresh_ledger ''20000000'' (Some ''XrAlice'') () = Returns ''H1''"
    by (simp add: scripted_client_def fresh_ledger_def)
  have bad: "send_reply ?bad fresh_ledger ''20000000'' (Some ''XrAlice'') ()
      = Throws (LibraryError ''down'')"
    by (simp add: scripted_client_def fresh_ledger_def)
  from submitPayment_propagates_send_result [OF enc drops, of ?ok fresh_ledger "()"] ok
  have 1: "fst (submitPayment ?U () ?ok ?r 1 fresh_ledger) = Returns ''H1''" by simp
  from submitPayment_propagates_send_result [OF enc drops, of ?bad fresh_ledger "()"] bad
  have 2: "fst (submitPayment ?U () ?bad ?r 1 fresh_ledger) = Throws (LibraryError ''down'')"
    by simp
  from enc drops ok bad 1 2 show ?thesis by blast
qed

text \<open>
  C7. One call of \<open>submitPayment\<close> invokes \<open>send\<close> at most once: the ledger afterwards is the
  ledger before, or the ledger before with one more \<open>send\<close> by the sender's wallet, and no
  status query is made. When \<open>submitPayment\<close> returns a transaction hash, and more generally
  whenever the encoding of the address and the conversion to drops return, \<open>send\<close> was invoked
  exactly once.
\<close>

theorem submitPayment_sends_once:
  "\<exists>res l'. submitPayment U w c r rate l = (res, l')
     \<and> queried l' = queried l
     \<and> (l' = l \<or> (\<exists>d x. l' = l\<lparr>sent := sent l @ [(d, x, w)]\<rparr>))
     \<and> length (sent l') \<le> length (sent l) + 1
     \<and> (returns_normally res \<longrightarrow> (\<exists>d x. l' = l\<lparr>sent := sent l @ [(d, x, w)]\<rparr>))
     \<and> (\<forall>x d. encodeXAddress U (address r) (destinationTag r) = Returns x
           \<and> xrpToDrops U (number_div U (usdAmount r) rate) = Returns d
           \<longrightarrow> l' = l\<lparr>sent := sent l @ [(d, x, w)]\<rparr>)"
proof (cases "encodeXAddress U (address r) (destinationTag r)")
  case (Throws e)
  then have "submitPayment U w c r rate l = (Throws e, l)"
    by (simp add: submitPayment_conversion_throws)
  with Throws show ?thesis by simp
next
  case enc: (Returns x)
  show ?thesis
  proof (cases "xrpToDrops U (number_div U (usdAmount r) rate)")
    case (Throws e)
    with enc have "submitPayment U w c r rate l = (Throws e, l)"
      by (simp add: submitPayment_conversion_throws)
    with enc Throws show ?thesis by simp
  next
    case (Returns d)
    have "\<exists>d' x'. l\<lparr>sent := sent l @ [(d, x, w)]\<rparr> = l\<lparr>sent := sent l @ [(d', x', w)]\<rparr>"
      by blast
    with submitPayment_reaches_send [OF enc Returns, of w c l] enc Returns
    show ?thesis by simp
  qed
qed

theorem submitPayment_sends_once_witness:
  "\<exists>res l'. submitPayment (test_utils (Returns ''20000000'')) ()
       (scripted_client [Returns ''H1''] (Throws (LibraryError ''down'')) [] (Returns Pending))
       (recipient ''Alice'') 1 fresh_ledger = (res, l')
     \<and> returns_normally res
     \<and> l' = \<lparr>sent = [(''20000000'', Some ''XrAlice'', ())], queried = []\<rparr>"
proof -
  let ?U = "test_utils (Returns ''20000000'')"
  let ?r = "recipient ''Alice''"
  let ?ok = "scripted_client [Returns ''H1''] (Throws (LibraryError ''down'')) []
       (Returns Pending)"
  have enc: "encodeXAddress ?U (address ?r) (destinationTag ?r) = Returns (Some ''XrAlice'')"
    by (simp add: test_utils_def recipient_def)
  have drops: "xrpToDrops ?U (number_div ?U (usdAmount ?r) 1) = Returns ''20000000''"
    by (simp add: test_utils_def)
  have res: "fst (submitPayment ?U () ?ok ?r 1 fresh_ledger) = Returns ''H1''"
    by (simp add: submitPayment_def send_def scripted_client_def test_utils_def recipient_def
      fresh_ledger_def)
  from submitPayment_sends_once [of ?U "()" ?ok ?r 1 fresh_ledger]
  obtain res l' where sp: "submitPayment ?U () ?ok ?r 1 fresh_ledger = (res, l')"
    and one: "\<forall>x d. encodeXAddress ?U (address ?r) (destinationTag ?r) = Returns x
           \<and> xrpToDrops ?U (number_div ?U (usdAmount ?r) 1) = Returns d
           \<longrightarrow> l' = fresh_ledger\<lparr>sent := sent fresh_ledger @ [(d, x, ())]\<rparr>"
    by blast
  from one enc drops have "l' = fresh_ledger\<lparr>sent := sent fresh_ledger @ [(''20000000'', Some ''XrAlice'', ())]\<rparr>"
    by blast
  then have "l' = \<lparr>sent = [(''20000000'', Some ''XrAlice'', ())], queried = []\<rparr>"
    by (simp add: fresh_ledger_def)
  moreover from sp res have "returns_normally res" by simp
  ultimately show ?thesis using sp by blast
qed

section \<open>\<open>generateWallet\<close>\<close>

text \<open>
  C10. \<open>generateWallet\<close> throws, or it returns a wallet that is present together with the
  classic address decoded from the wallet's X-address, where the X-address passes
  \<open>isValidXAddress\<close> and the classic address passes \<open>isValidClassicAddress\<close>.
\<close>

theorem generateWallet_valid_or_throws:
  "(\<exists>e. generateWallet U secret network = Throws e)
   \<or> (\<exists>wallet classicAddress.
         generateWallet U secret network = Returns (Some wallet, classicAddress)
       \<and> walletFromSeed U network secret = Returns (Some wallet)
       \<and> isValidXAddress U (Some (getAddress U wallet))
       \<and> decodeXAddress U (Some (getAddress U wallet)) = Returns classicAddress
       \<and> isValidClassicAddress U classicAddress)"
proof (cases "walletFromSeed U network secret")
  case (Throws e)
  then show ?thesis by (simp add: generateWallet_def)
next
  case made: (Returns wallet)
  show ?thesis
  proof (cases wallet)
    case None
    with made show ?thesis
      by (simp add: generateWallet_def split: completion.split)
  next
    case (Some w)
    show ?thesis
    proof (cases "decodeXAddress U (Some (getAddress U w))")
      case (Throws e)
      with made Some show ?thesis by (simp add: generateWallet_def)
    next
      case (Returns classicAddress)
      with made Some show ?thesis by (simp add: generateWallet_def)
    qed
  qed
qed

theorem generateWallet_valid_or_throws_witness:
  "generateWallet (test_utils (Returns ''0'')) ''sEdSecret'' Testnet
     = Returns (Some (), Some ''rSender'')
   \<and> isValidXAddress (test_utils (Returns ''0'')) (Some ''XrSender'')
   \<and> isValidClassicAddress (test_utils (Returns ''0'')) (Some ''rSender'')
   \<and> generateWallet (test_utils (Returns ''0'')) [] Testnet = Throws WalletGenerationFailed"
proof -
  let ?U = "test_utils (Returns ''0'')"
  have ret: "generateWallet ?U ''sEdSecret'' Testnet = Returns (Some (), Some ''rSender'')"
    by (simp add: generateWallet_def test_utils_def)
  have thr: "generateWallet ?U [] Testnet = Throws WalletGenerationFailed"
    by (simp add: generateWallet_def test_utils_def)
  from generateWallet_valid_or_throws [of ?U "''sEdSecret''" Testnet] ret
  have "isValidXAddress ?U (Some (getAddress ?U ())) \<and> isValidClassicAddress ?U (Some ''rSender'')"
    by auto
  moreover have "getAddress ?U () = ''XrSender''" by (simp add: test_utils_def)
  ultimately show ?thesis using ret thr by simp
qed

section \<open>The batch\<close>

lemma reliableBatchPayment_total:
  assumes "N = R \<or> 1 \<le> R"
  shows "\<exists>outs l'. reliableBatchPayment R U txInputs sink w c rate N l = Some (sink @ outs, l')
           \<and> map fst outs = txInputs"
proof (induction txInputs arbitrary: sink l)
  case Nil
  show ?case by simp
next
  case (Cons txInput txInputs)
  obtain res l1 where sp: "submitPayment U w c txInput rate l = (res, l1)"
    by (cases "submitPayment U w c txInput rate l")
  show ?case
  proof (cases res)
    case (Throws e)
    from Cons.IH [of "sink @ [(txInput, OutcomeFailed e)]" l1]
    obtain outs l' where
      "reliableBatchPayment R U txInputs (sink @ [(txInput, OutcomeFailed e)]) w c rate N l1
         = Some ((sink @ [(txInput, OutcomeFailed e)]) @ outs, l')"
      and "map fst outs = txInputs"
      by blast
    with sp Throws show ?thesis
      by (intro exI [of _ "(txInput, OutcomeFailed e) # outs"] exI [of _ l']) simp
  next
    case (Returns txHash)
    from checkPayment_at_most_two_polls [OF assms, of c txHash l1]
    obtain r l2 where cp: "checkPayment R c txHash N 0 l1 = Some (r, l2)"
      by blast
    from Cons.IH [of "sink @ [(txInput, outcome_of txHash r)]" l2]
    obtain outs l' where
      "reliableBatchPayment R U txInputs (sink @ [(txInput, outcome_of txHash r)]) w c rate N l2
         = Some ((sink @ [(txInput, outcome_of txHash r)]) @ outs, l')"
      and "map fst outs = txInputs"
      by blast
    with sp Returns cp show ?thesis
      by (intro exI [of _ "(txInput, outcome_of txHash r) # outs"] exI [of _ l']) simp
  qed
qed

text \<open>
  The end-to-end scenario of the spec, section 8: three recipients, the submission for the
  second one fails. The first and the third are confirmed, the second is recorded as failed
  and is never polled.
\<close>

lemma reliableBatchPayment_scenario:
  "reliableBatchPayment 3 (test_utils (Returns ''20000000''))
     [recipient ''A'', recipient ''B'', recipient ''C''] [] ()
     (scripted_client [Returns ''H1'', Throws (LibraryError ''down'')] (Returns ''H3'') []
        (Returns Succeeded)) 1 3 fresh_ledger
   = Some ([(recipient ''A'', Confirmed ''H1''),
            (recipient ''B'', OutcomeFailed (LibraryError ''down'')),
            (recipient ''C'', Confirmed ''H3'')],
           \<lparr>sent = [(''20000000'', Some ''XrA'', ()), (''20000000'', Some ''XrB'', ()),
                    (''20000000'', Some ''XrC'', ())],
             queried = [''H1'', ''H3'']\<rparr>)"
  by (simp add: submitPayment_def send_def checkPayment.simps getPaymentStatus_def
      scripted_client_def test_utils_def recipient_def fresh_ledger_def)

text \<open>The records already in the sink stay in front of the ones a run adds.\<close>

lemma reliableBatchPayment_sink:
  "reliableBatchPayment R U txInputs sink w c rate N l
     = map_option (\<lambda>(outs, l'). (sink @ outs, l'))
         (reliableBatchPayment R U txInputs [] w c rate N l)"
proof (induction txInputs arbitrary: sink l)
  case Nil
  show ?case by simp
next
  case (Cons txInput txInputs)
  obtain res l1 where sp: "submitPayment U w c txInput rate l = (res, l1)"
    by (cases "submitPayment U w c txInput rate l")
  show ?case
  proof (cases res)
    case (Throws e)
    from Cons.IH [of "sink @ [(txInput, OutcomeFailed e)]" l1]
      Cons.IH [of "[(txInput, OutcomeFailed e)]" l1] sp Throws
    show ?thesis
      by (cases "reliableBatchPayment R U txInputs [] w c rate N l1") auto
  next
    case (Returns txHash)
    show ?thesis
    proof (cases "checkPayment R c txHash N 0 l1")
      case None
      with sp Returns show ?thesis by simp
    next
      case (Some p)
      obtain r l2 where p: "p = (r, l2)" by (cases p)
      from Cons.IH [of "sink @ [(txInput, outcome_of txHash r)]" l2]
        Cons.IH [of "[(txInput, outcome_of txHash r)]" l2] sp Returns Some p
      show ?thesis
        by (cases "reliableBatchPayment R U txInputs [] w c rate N l2") auto
    qed
  qed
qed

text \<open>A run over a list is a run over its front part, then a run over the rest.\<close>

lemma reliableBatchPayment_append:
  "reliableBatchPayment R U (pre @ post) sink w c rate N l
     = (case reliableBatchPayment R U pre sink w c rate N l of
          None \<Rightarrow> None
        | Some (sink1, l1) \<Rightarrow> reliableBatchPayment R U post sink1 w c rate N l1)"
proof (induction pre arbitrary: sink l)
  case Nil
  show ?case by simp
next
  case (Cons txInput pre)
  obtain res l1 where sp: "submitPayment U w c txInput rate l = (res, l1)"
    by (cases "submitPayment U w c txInput rate l")
  show ?case
  proof (cases res)
    case (Throws e)
    with sp Cons.IH [of "sink @ [(txInput, OutcomeFailed e)]" l1] show ?thesis by simp
  next
    case (Returns txHash)
    show ?thesis
    proof (cases "checkPayment R c txHash N 0 l1")
      case None
      with sp Returns show ?thesis by simp
    next
      case (Some p)
      obtain r l2 where p: "p = (r, l2)" by (cases p)
      with sp Returns Some Cons.IH [of "sink @ [(txInput, outcome_of txHash r)]" l2]
      show ?thesis by simp
    qed
  qed
qed

text \<open>
  One recipient anywhere in the batch. Whatever happened to the recipients before it, the
  Submitter is called for it on the ledger they left; a submission error is recorded as
  failed without a status query, a submitted payment is polled and the Watcher's result
  recorded; the recipients after it are processed from the ledger it left.
\<close>

lemma reliableBatchPayment_each_recipient:
  assumes "N = R \<or> 1 \<le> R"
  shows "\<exists>outs1 l1 out l2 outs2 l'.
       reliableBatchPayment R U pre [] w c rate N l = Some (outs1, l1)
     \<and> (\<forall>e la. submitPayment U w c r rate l1 = (Throws e, la) \<longrightarrow>
            out = OutcomeFailed e \<and> l2 = la)
     \<and> (\<forall>txHash la. submitPayment U w c r rate l1 = (Returns txHash, la) \<longrightarrow>
            (\<exists>res. checkPayment R c txHash N 0 la = Some (res, l2)
               \<and> out = outcome_of txHash res))
     \<and> reliableBatchPayment R U post [] w c rate N l2 = Some (outs2, l')
     \<and> reliableBatchPayment R U (pre @ r # post) [] w c rate N l
         = Some (outs1 @ (r, out) # outs2, l')"
proof -
  from reliableBatchPayment_total [OF assms, of U pre "[]" w c rate l]
  obtain outs1 l1 where pre: "reliableBatchPayment R U pre [] w c rate N l = Some (outs1, l1)"
    by auto
  obtain sres la where sp: "submitPayment U w c r rate l1 = (sres, la)"
    by (cases "submitPayment U w c r rate l1")
  have whole: "reliableBatchPayment R U (pre @ r # post) [] w c rate N l
      = reliableBatchPayment R U (r # post) outs1 w c rate N l1"
    using pre by (simp add: reliableBatchPayment_append del: reliableBatchPayment.simps)
  show ?thesis
  proof (cases sres)
    case (Throws e)
    from reliableBatchPayment_total [OF assms, of U post "[]" w c rate la]
    obtain outs2 l' where post: "reliableBatchPayment R U post [] w c rate N la = Some (outs2, l')"
      by auto
    have "reliableBatchPayment R U (r # post) outs1 w c rate N l1
        = reliableBatchPayment R U post (outs1 @ [(r, OutcomeFailed e)]) w c rate N la"
      using sp Throws by simp
    also have "\<dots> = Some ((outs1 @ [(r, OutcomeFailed e)]) @ outs2, l')"
      using post reliableBatchPayment_sink [of R U post "outs1 @ [(r, OutcomeFailed e)]" w c rate N la]
      by simp
    finally have "reliableBatchPayment R U (pre @ r # post) [] w c rate N l
        = Some (outs1 @ (r, OutcomeFailed e) # outs2, l')"
      using whole by simp
    with pre sp Throws post show ?thesis
      by (intro exI [of _ outs1] exI [of _ l1] exI [of _ "OutcomeFailed e"] exI [of _ la]
          exI [of _ outs2] exI [of _ l']) simp
  next
    case (Returns txHash)
    from checkPayment_at_most_two_polls [OF assms, of c txHash la]
    obtain res l2 where cp: "checkPayment R c txHash N 0 la = Some (res, l2)"
      by blast
    from reliableBatchPayment_total [OF assms, of U post "[]" w c rate l2]
    obtain outs2 l' where post: "reliableBatchPayment R U post [] w c rate N l2 = Some (outs2, l')"
      by auto
    have "reliableBatchPayment R U (r # post) outs1 w c rate N l1
        = reliableBatchPayment R U post (outs1 @ [(r, outcome_of txHash res)]) w c rate N l2"
      using sp Returns cp by simp
    also have "\<dots> = Some ((outs1 @ [(r, outcome_of txHash res)]) @ outs2, l')"
      using post
        reliableBatchPayment_sink [of R U post "outs1 @ [(r, outcome_of txHash res)]" w c rate N l2]
      by simp
    finally have "reliableBatchPayment R U (pre @ r # post) [] w c rate N l
        = Some (outs1 @ (r, outcome_of txHash res) # outs2, l')"
      using whole by simp
    with pre sp Returns cp post show ?thesis
      by (intro exI [of _ outs1] exI [of _ l1] exI [of _ "outcome_of txHash res"]
          exI [of _ l2] exI [of _ outs2] exI [of _ l']) simp
  qed
qed

text \<open>
  C3. A batch run over \<open>N\<close> recipients, with the configured retry limit as the number of
  retries (as \<open>payout\<close> passes it) and an empty result sink, ends with exactly \<open>N\<close> outcome
  records, one per recipient and in input order, whatever the client answers to any
  submission or status query. No error stops the run: for every recipient \<open>r\<close>, whatever
  the outcomes of the recipients \<open>pre\<close> before it, the Submitter is called for \<open>r\<close> on the
  ledger they left, a submission error is recorded as failed and a submitted payment as
  what the Watcher gives, that outcome stands at the position of \<open>r\<close>, and the recipients
  \<open>post\<close> after it are processed from the ledger \<open>r\<close> left.
\<close>

theorem reliableBatchPayment_one_outcome_per_recipient:
  "(\<exists>outs l'. reliableBatchPayment R U txInputs [] w c rate R l = Some (outs, l')
       \<and> length outs = length txInputs
       \<and> map fst outs = txInputs)
   \<and> (\<forall>pre r post. txInputs = pre @ r # post \<longrightarrow>
        (\<exists>outs1 l1 out l2 outs2 l'.
            reliableBatchPayment R U pre [] w c rate R l = Some (outs1, l1)
          \<and> (\<forall>e la. submitPayment U w c r rate l1 = (Throws e, la) \<longrightarrow>
                 out = OutcomeFailed e \<and> l2 = la)
          \<and> (\<forall>txHash la. submitPayment U w c r rate l1 = (Returns txHash, la) \<longrightarrow>
                 (\<exists>res. checkPayment R c txHash R 0 la = Some (res, l2)
                    \<and> out = outcome_of txHash res))
          \<and> reliableBatchPayment R U post [] w c rate R l2 = Some (outs2, l')
          \<and> reliableBatchPayment R U txInputs [] w c rate R l
              = Some (outs1 @ (r, out) # outs2, l')))"
proof
  have lim: "R = R \<or> 1 \<le> R" by simp
  from reliableBatchPayment_total [OF lim, of U txInputs "[]" w c rate l]
  obtain outs l' where run: "reliableBatchPayment R U txInputs [] w c rate R l = Some (outs, l')"
    and order: "map fst outs = txInputs"
    by auto
  from order have "length outs = length txInputs" by (metis length_map)
  with run order
  show "\<exists>outs l'. reliableBatchPayment R U txInputs [] w c rate R l = Some (outs, l')
       \<and> length outs = length txInputs \<and> map fst outs = txInputs"
    by blast
next
  have lim: "R = R \<or> 1 \<le> R" by simp
  show "\<forall>pre r post. txInputs = pre @ r # post \<longrightarrow>
        (\<exists>outs1 l1 out l2 outs2 l'.
            reliableBatchPayment R U pre [] w c rate R l = Some (outs1, l1)
          \<and> (\<forall>e la. submitPayment U w c r rate l1 = (Throws e, la) \<longrightarrow>
                 out = OutcomeFailed e \<and> l2 = la)
          \<and> (\<forall>txHash la. submitPayment U w c r rate l1 = (Returns txHash, la) \<longrightarrow>
                 (\<exists>res. checkPayment R c txHash R 0 la = Some (res, l2)
                    \<and> out = outcome_of txHash res))
          \<and> reliableBatchPayment R U post [] w c rate R l2 = Some (outs2, l')
          \<and> reliableBatchPayment R U txInputs [] w c rate R l
              = Some (outs1 @ (r, out) # outs2, l'))"
  proof (intro allI impI)
    fix pre r post
    assume split: "txInputs = pre @ r # post"
    from reliableBatchPayment_each_recipient [OF lim, of U pre w c rate l r post]
    show "\<exists>outs1 l1 out l2 outs2 l'.
            reliableBatchPayment R U pre [] w c rate R l = Some (outs1, l1)
          \<and> (\<forall>e la. submitPayment U w c r rate l1 = (Throws e, la) \<longrightarrow>
                 out = OutcomeFailed e \<and> l2 = la)
          \<and> (\<forall>txHash la. submitPayment U w c r rate l1 = (Returns txHash, la) \<longrightarrow>
                 (\<exists>res. checkPayment R c txHash R 0 la = Some (res, l2)
                    \<and> out = outcome_of txHash res))
          \<and> reliableBatchPayment R U post [] w c rate R l2 = Some (outs2, l')
          \<and> reliableBatchPayment R U txInputs [] w c rate R l
              = Some (outs1 @ (r, out) # outs2, l')"
      unfolding split .
  qed
qed

theorem reliableBatchPayment_one_outcome_per_recipient_witness:
  "[recipient ''A'', recipient ''B'', recipient ''C'']
     = [recipient ''A'', recipient ''B''] @ recipient ''C'' # []
   \<and> reliableBatchPayment 3 (test_utils (Returns ''20000000''))
       [recipient ''A'', recipient ''B'', recipient ''C''] [] ()
       (scripted_client [Returns ''H1'', Throws (LibraryError ''down'')] (Returns ''H3'') []
          (Returns Succeeded)) 1 3 fresh_ledger
     = Some ([(recipient ''A'', Confirmed ''H1''),
              (recipient ''B'', OutcomeFailed (LibraryError ''down'')),
              (recipient ''C'', Confirmed ''H3'')],
             \<lparr>sent = [(''20000000'', Some ''XrA'', ()), (''20000000'', Some ''XrB'', ()),
                      (''20000000'', Some ''XrC'', ())],
               queried = [''H1'', ''H3'']\<rparr>)"
proof -
  let ?U = "test_utils (Returns ''20000000'')"
  let ?c = "scripted_client [Returns ''H1'', Throws (LibraryError ''down'')] (Returns ''H3'') []
          (Returns Succeeded)"
  let ?A = "recipient ''A''" and ?B = "recipient ''B''" and ?C = "recipient ''C''"
  let ?l1 = "\<lparr>sent = [(''20000000'', Some ''XrA'', ()), (''20000000'', Some ''XrB'', ())],
      queried = [''H1'']\<rparr>"
  let ?la = "\<lparr>sent = [(''20000000'', Some ''XrA'', ()), (''20000000'', Some ''XrB'', ()),
      (''20000000'', Some ''XrC'', ())], queried = [''H1'']\<rparr>"
  let ?l2 = "\<lparr>sent = [(''20000000'', Some ''XrA'', ()), (''20000000'', Some ''XrB'', ()),
      (''20000000'', Some ''XrC'', ())], queried = [''H1'', ''H3'']\<rparr>"
  have split: "[?A, ?B, ?C] = [?A, ?B] @ ?C # []" by simp
  have front: "reliableBatchPayment 3 ?U [?A, ?B] [] () ?c 1 3 fresh_ledger
      = Some ([(?A, Confirmed ''H1''), (?B, OutcomeFailed (LibraryError ''down''))], ?l1)"
    by (simp add: submitPayment_def send_def checkPayment.simps getPaymentStatus_def
        scripted_client_def test_utils_def recipient_def fresh_ledger_def)
  have sp: "submitPayment ?U () ?c ?C 1 ?l1 = (Returns ''H3'', ?la)"
    by (simp add: submitPayment_def send_def scripted_client_def test_utils_def recipient_def)
  have cp: "checkPayment 3 ?c ''H3'' 3 0 ?la = Some (Returns (), ?l2)"
    by (simp add: checkPayment.simps getPaymentStatus_def scripted_client_def)
  note each = reliableBatchPayment_one_outcome_per_recipient
    [of 3 ?U "[?A, ?B, ?C]" "()" ?c 1 fresh_ledger, THEN conjunct2, rule_format, OF split]
  then obtain outs1 l1 out l2 outs2 l' where
    pre: "reliableBatchPayment 3 ?U [?A, ?B] [] () ?c 1 3 fresh_ledger = Some (outs1, l1)"
    and polled: "\<And>txHash la. submitPayment ?U () ?c ?C 1 l1 = (Returns txHash, la) \<Longrightarrow>
        \<exists>res. checkPayment 3 ?c txHash 3 0 la = Some (res, l2) \<and> out = outcome_of txHash res"
    and post: "reliableBatchPayment 3 ?U [] [] () ?c 1 3 l2 = Some (outs2, l')"
    and whole: "reliableBatchPayment 3 ?U [?A, ?B, ?C] [] () ?c 1 3 fresh_ledger
        = Some (outs1 @ (?C, out) # outs2, l')"
    by (elim exE conjE) (rule that, assumption, (erule allE)+, erule (1) impE, assumption+)
  from pre have o1: "outs1 = [(?A, Confirmed ''H1''), (?B, OutcomeFailed (LibraryError ''down''))]"
    and l1: "l1 = ?l1" by (simp_all only: front option.inject prod.inject)
  from polled [of "''H3''" ?la] sp
  have "\<exists>res. checkPayment 3 ?c ''H3'' 3 0 ?la = Some (res, l2) \<and> out = outcome_of ''H3'' res"
    by (simp only: l1)
  then obtain res where "Some (Returns (), ?l2) = Some (res, l2)" and o: "out = outcome_of ''H3'' res"
    by (elim exE conjE) (simp only: cp)
  then have out: "out = Confirmed ''H3''" and l2: "l2 = ?l2" by auto
  from post have o2: "outs2 = []" and l': "l' = l2" by simp_all
  show ?thesis
    by (simp only: split [symmetric] whole o1 out o2 l' l2 append.simps simp_thms)
qed

end
